theory Spec2Isabelle
  imports Complex_Main "HOL-Library.Sublist" "HOL-Library.Multiset"
begin

section \<open>JavaScript strings\<close>

text \<open>
  Strings are Isabelle strings. The model covers ASCII text: \<open>trim\<close> strips the ASCII
  white space characters (tab, line feed, vertical tab, form feed, carriage return, space)
  and \<open>toLowerCase\<close> maps \<open>A\<close>..\<open>Z\<close> to \<open>a\<close>..\<open>z\<close>; \<open>length\<close>, \<open>substring\<close> and
  \<open>includes\<close> count and compare code units as JavaScript does.
\<close>

definition is_space :: "char \<Rightarrow> bool" where
  "is_space c = (let n = (of_char c :: nat) in (9 \<le> n \<and> n \<le> 13) \<or> n = 32)"

definition trim :: "string \<Rightarrow> string" where
  "trim s = rev (dropWhile is_space (rev (dropWhile is_space s)))"

definition lower_char :: "char \<Rightarrow> char" where
  "lower_char c =
     (let n = (of_char c :: nat) in if 65 \<le> n \<and> n \<le> 90 then char_of (n + 32) else c)"

definition toLowerCase :: "string \<Rightarrow> string" where
  "toLowerCase s = map lower_char s"

text \<open>\<open>s.includes(sub)\<close>: \<open>sub\<close> occurs in \<open>s\<close> as a contiguous run.\<close>

fun includes_str :: "string \<Rightarrow> string \<Rightarrow> bool" where
  "includes_str [] sub = (sub = [])"
| "includes_str (x # xs) sub = (prefix sub (x # xs) \<or> includes_str xs sub)"

text \<open>\<open>s.substring(0, n)\<close> for \<open>n \<ge> 0\<close>.\<close>

definition substring0 :: "nat \<Rightarrow> string \<Rightarrow> string" where
  "substring0 n s = take n s"

text \<open>\<open>s.split(' ')\<close> and \<open>words.join(' ')\<close>; splitting the empty string gives one empty word.\<close>

fun split :: "char \<Rightarrow> string \<Rightarrow> string list" where
  "split c [] = [[]]"
| "split c (x # xs) =
     (if x = c then [] # split c xs
      else (case split c xs of [] \<Rightarrow> [[x]] | w # ws \<Rightarrow> (x # w) # ws))"


text \<open>\<open>n.toString()\<close> for an integer \<open>n\<close>: decimal digits, with a minus sign when negative.\<close>

definition digit_char :: "nat \<Rightarrow> char" where
  "digit_char d = char_of (48 + d)"

function digits :: "nat \<Rightarrow> string" where
  "digits n = (if n < 10 then [digit_char n] else digits (n div 10) @ [digit_char (n mod 10)])"
  by pat_completeness auto
termination
  by (relation "measure (\<lambda>n. n)") auto

declare digits.simps [simp del]

definition toString :: "int \<Rightarrow> string" where
  "toString i = (if i < 0 then CHR ''-'' # digits (nat (- i)) else digits (nat i))"

section \<open>Data model (types/chat.ts)\<close>

datatype role = User | Assistant

record DocumentSource =
  filename :: string
  chunk_text :: string
  relevance_score :: real
  document_id :: "string option"

text \<open>A \<open>Date\<close> is its \<open>getTime()\<close> value, the milliseconds since the epoch.\<close>

record Message =
  msg_id :: string
  msg_content :: string
  msg_role :: role
  msg_timestamp :: int
  msg_sources :: "DocumentSource list option"
  msg_conversationId :: "string option"

record Conversation =
  conv_id :: string
  conv_title :: string
  conv_lastMessage :: "string option"
  conv_updatedAt :: int
  conv_createdAt :: int
  conv_messageCount :: nat
  conv_userId :: "string option"
  conv_messages :: "Message list option"

datatype event_type = type_message | type_source | type_done | type_error

record StreamingChatResponse =
  ev_type :: event_type
  ev_content :: "string option"
  ev_source :: "DocumentSource option"
  ev_error :: "string option"

record ChatResponse =
  resp_response :: string
  resp_sources :: "DocumentSource list"
  resp_conversation_id :: string

text \<open>
  Exceptions: \<open>ApiError\<close> is the API client's error class, \<open>Error\<close> any other error with
  its message, \<open>ReferenceError\<close> the read of an identifier that is not in scope.
\<close>

datatype js_error = ApiError string | Error string | ReferenceError string

section \<open>The chat interface (components/chat/chat-interface.tsx)\<close>

text \<open>
  The component state, one field per \<open>useState\<close> hook. \<open>abortControllerRef\<close> is created
  with \<open>useRef(null)\<close> and never assigned anywhere, so \<open>abortControllerRef.current\<close> is
  always \<open>null\<close> and the two \<open>abort()\<close> branches never run; the ref is not a field.
\<close>

record chat_state =
  messages :: "Message list"
  isLoading :: bool
  isStreaming :: bool
  conversationId :: "string option"
  currentConversation :: "Conversation option"
  error_banner :: "string option"
  streamingMessage :: string

definition initial_state :: "string option \<Rightarrow> chat_state" where
  "initial_state initialConversationId =
     \<lparr>messages = [], isLoading = False, isStreaming = False,
      conversationId = initialConversationId, currentConversation = None,
      error_banner = None, streamingMessage = []\<rparr>"

text \<open>
  \<open>loadConversation\<close>, run by the effect on \<open>conversationId\<close>, once \<open>getConversation\<close>
  has resolved with a conversation or rejected.
\<close>

definition error_text :: "js_error \<Rightarrow> string \<Rightarrow> string" where
  "error_text e fallback = (case e of ApiError m \<Rightarrow> m | _ \<Rightarrow> fallback)"


subsection \<open>handleSendMessage\<close>

text \<open>
  The synchronous start of \<open>handleSendMessage(content)\<close> at clock \<open>now\<close>: the guard, then
  \<open>setError(null)\<close>, \<open>setIsLoading(true)\<close> and the append of the user message. \<open>None\<close> is
  the early \<open>return\<close>. The handler reads \<open>isLoading\<close>, \<open>isStreaming\<close> and
  \<open>conversationId\<close> of the render it was created in, which is the state \<open>s\<close> it is called in.
\<close>

definition userMessage :: "int \<Rightarrow> string \<Rightarrow> chat_state \<Rightarrow> Message" where
  "userMessage now content s =
     \<lparr>msg_id = toString now, msg_content = trim content, msg_role = User,
      msg_timestamp = now, msg_sources = None, msg_conversationId = conversationId s\<rparr>"

definition handleSendMessage_begin :: "int \<Rightarrow> string \<Rightarrow> chat_state \<Rightarrow> chat_state option" where
  "handleSendMessage_begin now content s =
     (if trim content = [] \<or> isLoading s \<or> isStreaming s then None
      else Some (s\<lparr>error_banner := None, isLoading := True,
                   messages := messages s @ [userMessage now content s]\<rparr>))"

text \<open>The title given to \<open>createConversation\<close>.\<close>

definition conversation_title :: "string \<Rightarrow> string" where
  "conversation_title content =
     (if length content > 50 then substring0 47 content @ ''...'' else content)"

text \<open>
  The network calls of the component. After the synchronous start, the first call is
  \<open>createConversation(title)\<close> when \<open>conversationId\<close> is falsy (undefined or empty), and
  otherwise the chat request for the current conversation; \<open>streaming\<close> is
  \<open>process.env.NEXT_PUBLIC_ENABLE_STREAMING === 'true'\<close>.
\<close>

datatype request =
    CreateConversation string
  | StreamingChat string string
  | SendMessage string string

definition falsy :: "string option \<Rightarrow> bool" where
  "falsy v = (case v of None \<Rightarrow> True | Some x \<Rightarrow> x = [])"

definition chat_request :: "bool \<Rightarrow> string \<Rightarrow> string \<Rightarrow> request" where
  "chat_request streaming content convId =
     (if streaming then StreamingChat content convId else SendMessage content convId)"

definition first_request :: "bool \<Rightarrow> string \<Rightarrow> chat_state \<Rightarrow> request" where
  "first_request streaming content s =
     (if falsy (conversationId s) then CreateConversation (conversation_title content)
      else chat_request streaming content (the (conversationId s)))"

text \<open>\<open>createConversation\<close> resolved with \<open>conversation_id\<close>: \<open>setConversationId\<close>.\<close>

definition conversation_created :: "string \<Rightarrow> chat_state \<Rightarrow> chat_state" where
  "conversation_created cid s = s\<lparr>conversationId := Some cid\<rparr>"

subsection \<open>handleStreamingResponse\<close>

text \<open>
  One call of \<open>handleStreamingResponse\<close> owns the array \<open>streamingSources\<close> and the
  two callbacks. The callbacks are closures of the render \<open>render\<close> in which
  \<open>handleSendMessage\<close> was called, so the identifier \<open>streamingMessage\<close> they read on
  \<open>done\<close> is the constant of that render; the functional updates
  \<open>setStreamingMessage(prev => ...)\<close> and \<open>setMessages(prev => ...)\<close> act on the
  current state.
\<close>

record stream_session =
  captured_streamingMessage :: string
  streamingSources :: "DocumentSource list"
  session_convId :: string

definition handleStreamingResponse_begin ::
  "chat_state \<Rightarrow> string \<Rightarrow> chat_state \<Rightarrow> chat_state \<times> stream_session" where
  "handleStreamingResponse_begin render convId s =
     (s\<lparr>isStreaming := True, streamingMessage := []\<rparr>,
      \<lparr>captured_streamingMessage = streamingMessage render, streamingSources = [],
       session_convId = convId\<rparr>)"

definition assistantMessage :: "int \<Rightarrow> stream_session \<Rightarrow> Message" where
  "assistantMessage now sess =
     \<lparr>msg_id = toString now, msg_content = captured_streamingMessage sess,
      msg_role = Assistant, msg_timestamp = now,
      msg_sources = Some (streamingSources sess),
      msg_conversationId = Some (session_convId sess)\<rparr>"

text \<open>\<open>v || fallback\<close> on an optional string: undefined and the empty string are falsy.\<close>

definition or_else :: "string option \<Rightarrow> string \<Rightarrow> string" where
  "or_else v fallback = (case v of None \<Rightarrow> fallback | Some x \<Rightarrow> if x = [] then fallback else x)"

text \<open>
  \<open>handleStreamMessage(response)\<close> at clock \<open>now\<close>; \<open>Inl\<close> is the \<open>throw\<close> of the
  \<open>error\<close> case. The message appended on \<open>done\<close> holds the sources collected so far
  (the model takes their value at \<open>done\<close>).
\<close>

definition handleStreamMessage ::
  "int \<Rightarrow> StreamingChatResponse \<Rightarrow> chat_state \<times> stream_session
     \<Rightarrow> js_error + chat_state \<times> stream_session" where
  "handleStreamMessage now response cs =
     (case cs of (s, sess) \<Rightarrow>
        (case ev_type response of
           type_message \<Rightarrow>
             (if falsy (ev_content response) then Inr (s, sess)
              else Inr (s\<lparr>streamingMessage := streamingMessage s @ the (ev_content response)\<rparr>,
                        sess))
         | type_source \<Rightarrow>
             (case ev_source response of
                None \<Rightarrow> Inr (s, sess)
              | Some src \<Rightarrow> Inr (s, sess\<lparr>streamingSources := streamingSources sess @ [src]\<rparr>))
         | type_done \<Rightarrow>
             Inr (s\<lparr>messages := messages s @ [assistantMessage now sess],
                     streamingMessage := [], isStreaming := False\<rparr>, sess)
         | type_error \<Rightarrow>
             Inl (Error (or_else (ev_error response) ''Streaming error occurred''))))"

text \<open>
  Modelled from the spec: \<open>createStreamingChat\<close> of \<open>lib/api\<close> is not among the
  sources; it hands the events of a stream, in arrival order, to the message callback.
  Each event comes with the clock at its delivery; delivery stops at the first throw.
\<close>

fun deliver ::
  "(int \<times> StreamingChatResponse) list \<Rightarrow> chat_state \<times> stream_session
     \<Rightarrow> js_error + chat_state \<times> stream_session" where
  "deliver [] cs = Inr cs"
| "deliver ((now, response) # rest) cs =
     (case handleStreamMessage now response cs of
        Inl e \<Rightarrow> Inl e
      | Inr cs' \<Rightarrow> deliver rest cs')"

definition error_message :: "js_error \<Rightarrow> string" where
  "error_message e = (case e of ApiError m \<Rightarrow> m | Error m \<Rightarrow> m | ReferenceError m \<Rightarrow> m)"

definition handleStreamError :: "js_error \<Rightarrow> chat_state \<Rightarrow> chat_state" where
  "handleStreamError e s =
     s\<lparr>error_banner := Some (error_message e), isStreaming := False, streamingMessage := []\<rparr>"

subsection \<open>handleRegularResponse\<close>


subsection \<open>The end of handleSendMessage\<close>

text \<open>
  The \<open>catch\<close> block for an exception \<open>e\<close> of an awaited call, then \<open>finally\<close>. The block
  calls \<open>setError(errorMessage)\<close> and then builds \<open>errorResponse\<close>, whose field
  \<open>conversationId: currentConvId\<close> reads a variable declared by \<open>let\<close> inside the
  \<open>try\<close> block: it is not in scope in the \<open>catch\<close> block, the read raises
  \<open>ReferenceError\<close>, and the \<open>setMessages\<close> after it is not reached. The result is the
  state left behind and the exception the call ends with.
\<close>

definition handleSendMessage_catch :: "js_error \<Rightarrow> chat_state \<Rightarrow> chat_state \<times> js_error option" where
  "handleSendMessage_catch e s =
     (let errorMessage = error_text e ''Failed to send message'' in
      (s\<lparr>error_banner := Some errorMessage, isLoading := False\<rparr>,
       Some (ReferenceError ''currentConvId is not defined'')))"


text \<open>
  A send in an existing conversation with streaming enabled, up to the point where
  \<open>createStreamingChat\<close> has been called: the state and the session of the open stream.
\<close>

definition send_streaming :: "int \<Rightarrow> string \<Rightarrow> chat_state \<Rightarrow> (chat_state \<times> stream_session) option" where
  "send_streaming now content s =
     (case handleSendMessage_begin now content s of
        None \<Rightarrow> None
      | Some s1 \<Rightarrow>
          (case first_request True content s of
             StreamingChat m cid \<Rightarrow> Some (handleStreamingResponse_begin s cid s1)
           | _ \<Rightarrow> None))"

subsection \<open>Conversation switches and retry\<close>

definition handleNewConversation :: "chat_state \<Rightarrow> chat_state" where
  "handleNewConversation s =
     s\<lparr>conversationId := None, currentConversation := None, messages := [],
       error_banner := None, isLoading := False, isStreaming := False,
       streamingMessage := []\<rparr>"


text \<open>\<open>messages.filter(m => m.role === 'user').pop()\<close>.\<close>

definition lastUserMessage :: "Message list \<Rightarrow> Message option" where
  "lastUserMessage ms =
     (case filter (\<lambda>m. msg_role m = User) ms of [] \<Rightarrow> None | u # us \<Rightarrow> Some (last (u # us)))"

text \<open>The updater handed to \<open>setMessages\<close> by \<open>handleRetry\<close>.\<close>

definition remove_trailing_error :: "Message list \<Rightarrow> Message list" where
  "remove_trailing_error prev =
     (if prev \<noteq> [] \<and> msg_role (last prev) = Assistant
         \<and> includes_str (msg_content (last prev)) ''error''
      then butlast prev else prev)"

text \<open>
  \<open>handleRetry\<close> at clock \<open>now\<close>. The second component is the content with which
  \<open>handleSendMessage\<close> went past its guard, when it did.
\<close>

definition handleRetry :: "int \<Rightarrow> chat_state \<Rightarrow> chat_state \<times> string option" where
  "handleRetry now s =
     (if length (messages s) > 0 then
        (case lastUserMessage (messages s) of
           None \<Rightarrow> (s, None)
         | Some u \<Rightarrow>
             (let s1 = s\<lparr>messages := remove_trailing_error (messages s)\<rparr> in
              case handleSendMessage_begin now (msg_content u) s1 of
                None \<Rightarrow> (s1, None)
              | Some s2 \<Rightarrow> (s2, Some (msg_content u))))
      else (s, None))"

section \<open>The conversation sidebar (components/chat/conversation-sidebar.tsx)\<close>

record date_range =
  range_start :: int
  range_end :: int

record sidebar_state =
  conversations :: "Conversation list"
  searchQuery :: string
  dateRange :: "date_range option"
  sidebar_error :: "string option"

subsection \<open>Filtering\<close>

text \<open>
  The effect that computes \<open>filteredConversations\<close>. \<open>Array.prototype.sort\<close> is stable and
  the comparator \<open>b.updatedAt.getTime() - a.updatedAt.getTime()\<close> orders by update time,
  latest first: a stable sort on the negated time.
\<close>

definition matches_query :: "string \<Rightarrow> Conversation \<Rightarrow> bool" where
  "matches_query query conv =
     (includes_str (toLowerCase (conv_title conv)) query
      \<or> (case conv_lastMessage conv of
            None \<Rightarrow> False
          | Some l \<Rightarrow> includes_str (toLowerCase l) query))"

definition in_range :: "date_range \<Rightarrow> Conversation \<Rightarrow> bool" where
  "in_range r conv = (conv_updatedAt conv \<ge> range_start r \<and> conv_updatedAt conv \<le> range_end r)"

definition filterConversations ::
  "Conversation list \<Rightarrow> string \<Rightarrow> date_range option \<Rightarrow> Conversation list" where
  "filterConversations convs query_text dr =
     (let filtered = convs;
          filtered = (if trim query_text \<noteq> []
                      then filter (matches_query (toLowerCase query_text)) filtered
                      else filtered);
          filtered = (case dr of
                        Some r \<Rightarrow> filter (in_range r) filtered
                      | None \<Rightarrow> filtered)
      in sort_key (\<lambda>conv. - conv_updatedAt conv) filtered)"

definition filteredConversations :: "sidebar_state \<Rightarrow> Conversation list" where
  "filteredConversations sb = filterConversations (conversations sb) (searchQuery sb) (dateRange sb)"

subsection \<open>Grouping\<close>

text \<open>
  \<open>toDateString()\<close> renders the weekday, month, day and year of an instant in the local
  time zone of the platform. It is a parameter of the model: a function from instants to
  date strings, of which the code uses nothing but the equality of two results.
\<close>

definition group_name :: "(int \<Rightarrow> 'd) \<Rightarrow> int \<Rightarrow> Conversation \<Rightarrow> string" where
  "group_name toDateString now conv =
     (let yesterday = now - 24 * 60 * 60 * 1000;
          weekAgo = now - 7 * 24 * 60 * 60 * 1000
      in if toDateString (conv_updatedAt conv) = toDateString now then ''Today''
         else if toDateString (conv_updatedAt conv) = toDateString yesterday then ''Yesterday''
         else if conv_updatedAt conv > weekAgo then ''This Week''
         else ''Older'')"

text \<open>
  The object \<open>groups\<close> with its keys in insertion order, \<open>groups[key].push(conv)\<close>, and
  the \<open>forEach\<close> followed by \<open>Object.entries(groups).filter(...)\<close>.
\<close>

definition empty_groups :: "(string \<times> Conversation list) list" where
  "empty_groups = [(''Today'', []), (''Yesterday'', []), (''This Week'', []), (''Older'', [])]"

definition push :: "string \<Rightarrow> Conversation \<Rightarrow> (string \<times> Conversation list) list
    \<Rightarrow> (string \<times> Conversation list) list" where
  "push key conv groups = map (\<lambda>(k, convs). if k = key then (k, convs @ [conv]) else (k, convs)) groups"

definition conversationGroups ::
  "(int \<Rightarrow> 'd) \<Rightarrow> int \<Rightarrow> Conversation list \<Rightarrow> (string \<times> Conversation list) list" where
  "conversationGroups toDateString now filtered =
     filter (\<lambda>(k, convs). length convs > 0)
       (foldl (\<lambda>groups conv. push (group_name toDateString now conv) conv groups)
          empty_groups filtered)"

subsection \<open>Deleting\<close>

text \<open>
  \<open>handleDeleteConversation(conversationId)\<close> on the sidebar state and the chat state:
  \<open>confirmed\<close> is the answer to \<open>confirm(...)\<close>, \<open>result\<close> the outcome of the awaited
  \<open>deleteConversation\<close>, \<open>currentConversationId\<close> the prop of the render the handler
  belongs to, and \<open>onNewConversation\<close> is the chat interface's \<open>handleNewConversation\<close>.
\<close>

definition handleDeleteConversation ::
  "bool \<Rightarrow> js_error + unit \<Rightarrow> string \<Rightarrow> string option \<Rightarrow> sidebar_state \<times> chat_state
     \<Rightarrow> sidebar_state \<times> chat_state" where
  "handleDeleteConversation confirmed result cid currentConversationId st =
     (case st of (sb, chat) \<Rightarrow>
        if \<not> confirmed then (sb, chat)
        else (case result of
                Inl e \<Rightarrow>
                  (sb\<lparr>sidebar_error := Some (error_text e ''Failed to delete conversation'')\<rparr>, chat)
              | Inr u \<Rightarrow>
                  (sb\<lparr>conversations := filter (\<lambda>c. conv_id c \<noteq> cid) (conversations sb)\<rparr>,
                   if currentConversationId = Some cid then handleNewConversation chat else chat)))"

section \<open>The chat input (components/chat/chat-input.tsx)\<close>

text \<open>
  The text of the input is the state \<open>message\<close>. The textarea has \<open>maxLength={1000}\<close>,
  which the browser applies to what the user types or pastes (the value handed to
  \<open>handleInputChange\<close>), not to a value set by \<open>setMessage\<close>.
\<close>

record input_state =
  input_message :: string





text \<open>
  \<open>handleSubmit\<close>: the new input state and the argument of \<open>onSendMessage\<close>, when it is
  called. The chat interface passes \<open>isLoading || isStreaming\<close> and \<open>!!error\<close> as the
  props \<open>isLoading\<close> and \<open>disabled\<close>.
\<close>

definition handleSubmit :: "bool \<Rightarrow> bool \<Rightarrow> input_state \<Rightarrow> input_state \<times> string option" where
  "handleSubmit loading disabled st =
     (if trim (input_message st) \<noteq> [] \<and> \<not> loading \<and> \<not> disabled
      then (st\<lparr>input_message := []\<rparr>, Some (trim (input_message st)))
      else (st, None))"

text \<open>A submit of the input wired to the chat interface at clock \<open>now\<close>.\<close>

definition submit :: "int \<Rightarrow> input_state \<times> chat_state \<Rightarrow> input_state \<times> chat_state" where
  "submit now st =
     (case st of (inp, chat) \<Rightarrow>
        (case handleSubmit (isLoading chat \<or> isStreaming chat) (\<not> falsy (error_banner chat)) inp of
           (inp', None) \<Rightarrow> (inp', chat)
         | (inp', Some content) \<Rightarrow>
             (case handleSendMessage_begin now content chat of
                None \<Rightarrow> (inp', chat)
              | Some chat' \<Rightarrow> (inp', chat'))))"

section \<open>What the specification asks of a finished stream\<close>

text \<open>
  Following the specification's words: the concatenation, in arrival order, of the
  \<open>content\<close> fields of the \<open>message\<close> events of a stream, and the citations carried by
  its \<open>source\<close> events in arrival order.
\<close>

definition spec_content :: "(int \<times> StreamingChatResponse) list \<Rightarrow> string" where
  "spec_content evs =
     concat (map (\<lambda>(t, r). or_else (ev_content r) [])
               (filter (\<lambda>(t, r). ev_type r = type_message) evs))"

definition spec_citations :: "(int \<times> StreamingChatResponse) list \<Rightarrow> DocumentSource list" where
  "spec_citations evs =
     concat (map (\<lambda>(t, r). case ev_source r of None \<Rightarrow> [] | Some c \<Rightarrow> [c])
               (filter (\<lambda>(t, r). ev_type r = type_source) evs))"

text \<open>The four kinds of event on the wire.\<close>

definition message_event :: "string \<Rightarrow> StreamingChatResponse" where
  "message_event c = \<lparr>ev_type = type_message, ev_content = Some c, ev_source = None, ev_error = None\<rparr>"

definition source_event :: "DocumentSource \<Rightarrow> StreamingChatResponse" where
  "source_event c = \<lparr>ev_type = type_source, ev_content = None, ev_source = Some c, ev_error = None\<rparr>"

definition done_event :: StreamingChatResponse where
  "done_event = \<lparr>ev_type = type_done, ev_content = None, ev_source = None, ev_error = None\<rparr>"

definition error_event :: "string \<Rightarrow> StreamingChatResponse" where
  "error_event e = \<lparr>ev_type = type_error, ev_content = None, ev_source = None, ev_error = Some e\<rparr>"

section \<open>Example data\<close>

definition citation_a :: DocumentSource where
  "citation_a = \<lparr>filename = ''book.pdf'', chunk_text = ''Chapter 1'', relevance_score = 1,
                  document_id = None\<rparr>"

definition citation_b :: DocumentSource where
  "citation_b = \<lparr>filename = ''notes.md'', chunk_text = ''X'', relevance_score = 0,
                  document_id = Some ''d2''\<rparr>"

definition error_reply :: Message where
  "error_reply = \<lparr>msg_id = ''7'', msg_content = ''Sorry, I encountered an error: timeout. Please try again.'',
                   msg_role = Assistant, msg_timestamp = 7, msg_sources = None,
                   msg_conversationId = Some ''c7''\<rparr>"

definition question :: Message where
  "question = \<lparr>msg_id = ''6'', msg_content = ''What is X?'', msg_role = User, msg_timestamp = 6,
                msg_sources = None, msg_conversationId = Some ''c7''\<rparr>"

definition loaded :: "Message list \<Rightarrow> chat_state" where
  "loaded ms = (initial_state (Some ''c7''))\<lparr>messages := ms\<rparr>"

section \<open>What the specification asks of filtering\<close>

text \<open>
  Following the specification's words: a text contains the query as a case-insensitive
  substring when some contiguous part of it equals the query up to letter case; a
  conversation is selected when its title or its last-message preview does, and its
  last-update time lies in the date range, bounds included, when one is given.
\<close>

definition ci_contains :: "string \<Rightarrow> string \<Rightarrow> bool" where
  "ci_contains text q = (\<exists>pre mid post. text = pre @ mid @ post \<and> toLowerCase mid = toLowerCase q)"

definition text_match :: "string \<Rightarrow> Conversation \<Rightarrow> bool" where
  "text_match q conv =
     (ci_contains (conv_title conv) q
      \<or> (\<exists>l. conv_lastMessage conv = Some l \<and> ci_contains l q))"

definition range_match :: "date_range option \<Rightarrow> Conversation \<Rightarrow> bool" where
  "range_match dr conv =
     (case dr of
        None \<Rightarrow> True
      | Some r \<Rightarrow> range_start r \<le> conv_updatedAt conv \<and> conv_updatedAt conv \<le> range_end r)"

text \<open>A conversation with a title and a last-update time, and nothing else.\<close>

definition conv_at :: "string \<Rightarrow> int \<Rightarrow> Conversation" where
  "conv_at name t =
     \<lparr>conv_id = name, conv_title = name, conv_lastMessage = None, conv_updatedAt = t,
      conv_createdAt = t, conv_messageCount = 0, conv_userId = None, conv_messages = None\<rparr>"


definition new_york_day :: "int \<Rightarrow> int" where
  "new_york_day t = (t - (if t < 1793512800000 then 14400000 else 18000000)) div 86400000"

section \<open>Reachable transcripts\<close>









section \<open>Properties of the string operations\<close>

lemma trim_last: "trim s \<noteq> [] \<Longrightarrow> \<not> is_space (last (trim s))"
  unfolding trim_def by (simp add: last_rev hd_dropWhile)

lemma trim_hd: "trim s \<noteq> [] \<Longrightarrow> \<not> is_space (hd (trim s))"
proof -
  assume a: "trim s \<noteq> []"
  let ?t = "dropWhile is_space s"
  from a have ne: "dropWhile is_space (rev ?t) \<noteq> []" by (simp add: trim_def)
  then have t: "?t \<noteq> []" by (metis dropWhile.simps(1) rev.simps(1))
  have "hd (trim s) = last (dropWhile is_space (rev ?t))"
    using ne by (simp add: trim_def hd_rev)
  also have "\<dots> = last (rev ?t)"
    using ne by (metis last_appendR takeWhile_dropWhile_id)
  also have "\<dots> = hd ?t" using t by (simp add: last_rev)
  finally show ?thesis using t by (simp add: hd_dropWhile)
qed

lemma dropWhile_id: "xs \<noteq> [] \<Longrightarrow> \<not> P (hd xs) \<Longrightarrow> dropWhile P xs = xs"
  by (cases xs) auto

lemma trim_fixed:
  assumes "s = [] \<or> (\<not> is_space (hd s) \<and> \<not> is_space (last s))"
  shows "trim s = s"
proof (cases "s = []")
  case True
  then show ?thesis by (simp add: trim_def)
next
  case False
  with assms have h: "\<not> is_space (hd s)" and l: "\<not> is_space (last s)" by auto
  from False h have "dropWhile is_space s = s" by (rule dropWhile_id)
  moreover from False l have "dropWhile is_space (rev s) = rev s"
    by (intro dropWhile_id) (simp_all add: hd_rev)
  ultimately show ?thesis by (simp add: trim_def)
qed

lemma trim_idem: "trim (trim s) = trim s"
  by (rule trim_fixed) (use trim_hd trim_last in blast)


lemma sublist_trim: "sublist (trim s) s"
proof -
  let ?t = "dropWhile is_space s"
  have "rev ?t = takeWhile is_space (rev ?t) @ dropWhile is_space (rev ?t)" by simp
  then have "?t = trim s @ rev (takeWhile is_space (rev ?t))"
    unfolding trim_def by (metis rev_append rev_rev_ident)
  moreover have "s = takeWhile is_space s @ ?t" by simp
  ultimately have "s = takeWhile is_space s @ trim s @ rev (takeWhile is_space (rev ?t))"
    by simp
  then show ?thesis unfolding sublist_def by blast
qed

section \<open>Sending\<close>

text \<open>
  Claim C6. A submission that passes the guard of \<open>handleSendMessage\<close> (not blank after
  trimming, \<open>isLoading\<close> and \<open>isStreaming\<close> both false) appends exactly one message to the
  transcript in the synchronous start of the handler, before the first network call
  (\<open>first_request\<close>) is issued: a user message whose content is the trimmed submission,
  which is the submission itself when it carries no surrounding white space, as every
  submission of the chat input does.
\<close>

theorem send_appends_user_message:
  assumes "trim content \<noteq> []" and "\<not> isLoading s" and "\<not> isStreaming s"
  shows "\<exists>s' m. handleSendMessage_begin now content s = Some s'
           \<and> messages s' = messages s @ [m]
           \<and> msg_role m = User
           \<and> msg_content m = trim content
           \<and> sublist (msg_content m) content
           \<and> (trim content = content \<longrightarrow> msg_content m = content)"
  using assms by (simp add: handleSendMessage_begin_def userMessage_def sublist_trim)

theorem send_appends_user_message_witness:
  "\<exists>s' m. handleSendMessage_begin 5 ''hello'' (initial_state None) = Some s'
           \<and> messages s' = [m] \<and> msg_role m = User \<and> msg_content m = ''hello''"
  using send_appends_user_message [of "''hello''" "initial_state None" 5]
  by (auto simp: trim_def is_space_def initial_state_def)

text \<open>
  Claim C7. A send that passes the guard in a session with no conversation first asks
  \<open>createConversation\<close> for a conversation whose title is the submitted content when
  that has at most 50 characters and otherwise its first 47 characters followed by
  \<open>...\<close> (so a title never exceeds 50 characters), and the conversation id the call
  resolves with becomes the active \<open>conversationId\<close>.
\<close>

theorem first_send_creates_titled_conversation:
  assumes "handleSendMessage_begin now content s = Some s1" and "conversationId s = None"
  shows "first_request streaming content s = CreateConversation (conversation_title content)
         \<and> conversation_title content
             = (if length content \<le> 50 then content else take 47 content @ ''...'')
         \<and> length (conversation_title content) \<le> 50
         \<and> conversationId (conversation_created cid s1) = Some cid"
  using assms
  by (simp add: first_request_def falsy_def conversation_title_def substring0_def
      conversation_created_def)

theorem first_send_creates_titled_conversation_witness:
  "handleSendMessage_begin 5 ''Summarize chapter 1'' (initial_state None) \<noteq> None
   \<and> first_request True ''Summarize chapter 1'' (initial_state None)
       = CreateConversation ''Summarize chapter 1''
   \<and> conversationId (conversation_created ''c1''
        (the (handleSendMessage_begin 5 ''Summarize chapter 1'' (initial_state None)))) = Some ''c1''"
proof -
  obtain s1 where s1: "handleSendMessage_begin 5 ''Summarize chapter 1'' (initial_state None) = Some s1"
    by (simp add: handleSendMessage_begin_def initial_state_def trim_def is_space_def)
  have c: "conversationId (initial_state None) = None" by (simp add: initial_state_def)
  show ?thesis
    using first_send_creates_titled_conversation [OF s1 c, of True "''c1''"] s1
    by simp
qed

section \<open>Streams\<close>

lemma deliver_append:
  "deliver (xs @ ys) cs = (case deliver xs cs of Inl e \<Rightarrow> Inl e | Inr cs' \<Rightarrow> deliver ys cs')"
  by (induction xs arbitrary: cs) (auto split: sum.splits)

text \<open>
  \<open>message\<close> and \<open>source\<close> events extend the live partial text and the collected
  citations in arrival order.
\<close>

lemma deliver_fragments:
  assumes "\<forall>(t, r) \<in> set evs. ev_type r = type_message \<or> ev_type r = type_source"
  shows "deliver evs (s, sess) =
           Inr (s\<lparr>streamingMessage := streamingMessage s @ spec_content evs\<rparr>,
                sess\<lparr>streamingSources := streamingSources sess @ spec_citations evs\<rparr>)"
  using assms
proof (induction evs arbitrary: s sess)
  case Nil
  then show ?case by (simp add: spec_content_def spec_citations_def)
next
  case (Cons a evs)
  obtain t r where a: "a = (t, r)" by (cases a)
  from Cons.prems a have ty: "ev_type r = type_message \<or> ev_type r = type_source"
    and rest: "\<forall>(t, r) \<in> set evs. ev_type r = type_message \<or> ev_type r = type_source"
    by auto
  from ty show ?case
  proof
    assume m: "ev_type r = type_message"
    show ?thesis
      using m a Cons.IH [OF rest]
      by (cases "ev_content r")
         (simp_all add: handleStreamMessage_def falsy_def or_else_def spec_content_def
            spec_citations_def)
  next
    assume m: "ev_type r = type_source"
    show ?thesis
      using m a Cons.IH [OF rest]
      by (cases "ev_source r")
         (simp_all add: handleStreamMessage_def spec_content_def spec_citations_def)
  qed
qed

text \<open>
  On \<open>done\<close> the appended message carries the collected citations, and as content the
  \<open>streamingMessage\<close> of the render that started the send, whatever the stream delivered.
\<close>

lemma stream_done_appends:
  assumes "\<forall>(t, r) \<in> set evs. ev_type r = type_message \<or> ev_type r = type_source"
    and "ev_type d = type_done"
  shows "\<exists>s' sess'. deliver (evs @ [(t, d)]) (s, sess) = Inr (s', sess')
           \<and> messages s' = messages s @ [assistantMessage t sess']
           \<and> msg_content (assistantMessage t sess') = captured_streamingMessage sess
           \<and> msg_sources (assistantMessage t sess')
               = Some (streamingSources sess @ spec_citations evs)
           \<and> streamingMessage s' = [] \<and> \<not> isStreaming s'"
  using assms
  by (simp add: deliver_append deliver_fragments handleStreamMessage_def assistantMessage_def)

text \<open>
  Claim C1 (the code departs from it). A send of \<open>Summarize chapter 1\<close> in conversation
  \<open>c7\<close> whose stream delivers the fragments \<open>Chapter 1 \<close> and \<open>discusses X.\<close>, two
  citations and \<open>done\<close>: the assistant message appended on \<open>done\<close> carries the two
  citations in arrival order, but its content is empty, where the concatenation of the
  fragments is \<open>Chapter 1 discusses X.\<close>
\<close>

theorem stream_done_content_is_stale:
  "\<exists>cs s sess.
     send_streaming 1 ''Summarize chapter 1'' (initial_state (Some ''c7'')) = Some cs
     \<and> deliver [(2, message_event ''Chapter 1 ''), (3, source_event citation_a),
                 (4, message_event ''discusses X.''), (5, source_event citation_b),
                 (6, done_event)] cs = Inr (s, sess)
     \<and> map msg_role (messages s) = [User, Assistant]
     \<and> msg_content (last (messages s)) = []
     \<and> msg_sources (last (messages s)) = Some [citation_a, citation_b]
     \<and> spec_content [(2, message_event ''Chapter 1 ''), (3, source_event citation_a),
                 (4, message_event ''discusses X.''), (5, source_event citation_b),
                 (6, done_event)] = ''Chapter 1 discusses X.''"
  by (simp add: send_streaming_def handleSendMessage_begin_def first_request_def falsy_def
      chat_request_def handleStreamingResponse_begin_def initial_state_def trim_def is_space_def
      handleStreamMessage_def message_event_def source_event_def done_event_def
      assistantMessage_def userMessage_def spec_content_def or_else_def)

text \<open>
  Claim C2 (the code departs from it). A stream is opened in conversation \<open>c7\<close> and
  delivers one fragment; then \<open>handleNewConversation\<close> runs: the transcript is empty and
  no conversation is active. The \<open>done\<close> event of the old stream, delivered afterwards,
  is handled as any other and appends an assistant message of conversation \<open>c7\<close> to the
  new, empty transcript.
\<close>

theorem stale_done_appends_after_new_conversation:
  "\<exists>s sess s1 sess1 s2 sess2.
     send_streaming 1 ''hi'' (initial_state (Some ''c7'')) = Some (s, sess)
     \<and> handleStreamMessage 2 (message_event ''Hel'') (s, sess) = Inr (s1, sess1)
     \<and> messages (handleNewConversation s1) = []
     \<and> conversationId (handleNewConversation s1) = None
     \<and> handleStreamMessage 3 done_event (handleNewConversation s1, sess1) = Inr (s2, sess2)
     \<and> messages s2 = [assistantMessage 3 sess1]
     \<and> msg_conversationId (assistantMessage 3 sess1) = Some ''c7''"
  by (simp add: send_streaming_def handleSendMessage_begin_def first_request_def falsy_def
      chat_request_def handleStreamingResponse_begin_def initial_state_def trim_def is_space_def
      handleStreamMessage_def message_event_def done_event_def handleNewConversation_def
      assistantMessage_def)

section \<open>Failed sends and retry\<close>

lemma handleStreamError_messages: "messages (handleStreamError e s) = messages s"
  by (simp add: handleStreamError_def)

lemma handleSendMessage_catch_messages: "messages (fst (handleSendMessage_catch e s)) = messages s"
  by (simp add: handleSendMessage_catch_def)

text \<open>
  Claim C3 (the code departs from it). Three failed sends of \<open>hi\<close>, each leaving the
  error banner set and the transcript with the user message alone: a transport failure
  reported to \<open>handleStreamError\<close>; a rejected \<open>createConversation\<close>, whose \<open>catch\<close>
  block ends in a \<open>ReferenceError\<close> before it appends; and an \<open>error\<close> event, which
  \<open>handleStreamMessage\<close> throws as a plain \<open>Error\<close>, so that the \<open>catch\<close> block, when
  the exception reaches it, shows \<open>Failed to send message\<close> and not the reason.
\<close>

theorem failed_send_appends_no_error_message:
  "(\<exists>s sess.
      send_streaming 1 ''hi'' (initial_state (Some ''c7'')) = Some (s, sess)
      \<and> error_banner (handleStreamError (Error ''network down'') s) = Some ''network down''
      \<and> map msg_role (messages (handleStreamError (Error ''network down'') s)) = [User])
   \<and> (\<exists>s1 s2.
      handleSendMessage_begin 1 ''hi'' (initial_state None) = Some s1
      \<and> first_request True ''hi'' (initial_state None) = CreateConversation ''hi''
      \<and> handleSendMessage_catch (ApiError ''service unavailable'') s1
           = (s2, Some (ReferenceError ''currentConvId is not defined''))
      \<and> error_banner s2 = Some ''service unavailable''
      \<and> map msg_role (messages s2) = [User])
   \<and> (\<exists>s sess s2.
      send_streaming 1 ''hi'' (initial_state (Some ''c7'')) = Some (s, sess)
      \<and> handleStreamMessage 2 (error_event ''backend down'') (s, sess)
           = Inl (Error ''backend down'')
      \<and> handleSendMessage_catch (Error ''backend down'') s
           = (s2, Some (ReferenceError ''currentConvId is not defined''))
      \<and> error_banner s2 = Some ''Failed to send message''
      \<and> map msg_role (messages s2) = [User])"
  by (simp add: send_streaming_def handleSendMessage_begin_def first_request_def falsy_def
      chat_request_def handleStreamingResponse_begin_def initial_state_def trim_def is_space_def
      handleStreamMessage_def error_event_def handleStreamError_def error_message_def
      handleSendMessage_catch_def error_text_def conversation_title_def userMessage_def
      or_else_def)

lemma lastUserMessage_Some:
  "lastUserMessage ms = Some u \<Longrightarrow>
     ms \<noteq> [] \<and> u = last (filter (\<lambda>m. msg_role m = User) ms) \<and> u \<in> set ms \<and> msg_role u = User"
proof -
  assume a: "lastUserMessage ms = Some u"
  let ?us = "filter (\<lambda>m. msg_role m = User) ms"
  from a have ne: "?us \<noteq> []" and u: "u = last ?us"
    by (auto simp: lastUserMessage_def split: list.splits)
  from ne u have "u \<in> set ?us" using last_in_set by blast
  with ne u show ?thesis by auto
qed

text \<open>
  Claim C4, as stated, fails on a transcript without a user message: its trailing
  assistant message contains \<open>error\<close>, and \<open>handleRetry\<close> neither removes it nor
  submits anything.
\<close>

theorem retry_without_user_message_keeps_error:
  "msg_role (last (messages (loaded [error_reply]))) = Assistant
   \<and> includes_str (msg_content (last (messages (loaded [error_reply])))) ''error''
   \<and> handleRetry 9 (loaded [error_reply]) = (loaded [error_reply], None)"
  by (simp add: loaded_def error_reply_def handleRetry_def lastUserMessage_def initial_state_def)

text \<open>
  Claim C4, amended. On a transcript that holds a user message, \<open>handleRetry\<close> removes
  the trailing message exactly when it is an assistant message whose content contains
  \<open>error\<close>, and calls \<open>handleSendMessage\<close> with the content of the most recent user
  message \<open>u\<close>. When that content is not blank and nothing is in flight the send goes
  ahead and the transcript is the remaining messages followed by one new user message;
  otherwise the send is rejected and the transcript is the remaining messages.
\<close>

theorem retry_removes_trailing_error_and_resubmits:
  assumes "lastUserMessage (messages s) = Some u"
  shows "u = last (filter (\<lambda>m. msg_role m = User) (messages s))
    \<and> (let base = (if msg_role (last (messages s)) = Assistant
                        \<and> includes_str (msg_content (last (messages s))) ''error''
                     then butlast (messages s) else messages s)
       in if trim (msg_content u) \<noteq> [] \<and> \<not> isLoading s \<and> \<not> isStreaming s
          then snd (handleRetry now s) = Some (msg_content u)
               \<and> messages (fst (handleRetry now s)) = base @ [userMessage now (msg_content u) s]
          else snd (handleRetry now s) = None
               \<and> messages (fst (handleRetry now s)) = base)"
proof -
  from lastUserMessage_Some [OF assms] have ne: "messages s \<noteq> []"
    and u: "u = last (filter (\<lambda>m. msg_role m = User) (messages s))" by auto
  show ?thesis
    using assms ne u
    by (simp add: handleRetry_def remove_trailing_error_def handleSendMessage_begin_def
        userMessage_def Let_def)
qed

theorem retry_removes_trailing_error_and_resubmits_witness:
  "lastUserMessage (messages (loaded [question, error_reply])) = Some question
   \<and> snd (handleRetry 9 (loaded [question, error_reply])) = Some ''What is X?''
   \<and> map msg_content (messages (fst (handleRetry 9 (loaded [question, error_reply]))))
        = [''What is X?'', ''What is X?'']"
proof -
  have l: "lastUserMessage (messages (loaded [question, error_reply])) = Some question"
    by (simp add: lastUserMessage_def loaded_def question_def error_reply_def)
  show ?thesis
    using retry_removes_trailing_error_and_resubmits [OF l, of 9] l
    by (simp add: loaded_def question_def error_reply_def initial_state_def trim_def
        is_space_def userMessage_def)
qed

section \<open>The conversation directory\<close>

lemma includes_str_sublist: "includes_str s sub = sublist sub s"
  by (induction s) (simp_all add: sublist_Cons_right)

lemma includes_ci: "includes_str (toLowerCase text) (toLowerCase q) = ci_contains text q"
proof
  assume "includes_str (toLowerCase text) (toLowerCase q)"
  then obtain ps ss where "map lower_char text = ps @ map lower_char q @ ss"
    by (auto simp: includes_str_sublist sublist_def toLowerCase_def)
  then have "\<exists>us vs. text = us @ vs \<and> ps = map lower_char us
                \<and> map lower_char q @ ss = map lower_char vs"
    by (simp add: map_eq_append_conv)
  then obtain pre rest where t: "text = pre @ rest"
    and r: "map lower_char q @ ss = map lower_char rest"
    by blast
  from r have "\<exists>us vs. rest = us @ vs \<and> map lower_char q = map lower_char us
                \<and> ss = map lower_char vs"
    by (simp add: append_eq_map_conv)
  then obtain mid post where "rest = mid @ post" and "map lower_char mid = map lower_char q"
    by metis
  with t show "ci_contains text q"
    unfolding ci_contains_def toLowerCase_def by blast
next
  assume "ci_contains text q"
  then obtain pre mid post where "text = pre @ mid @ post" and "toLowerCase mid = toLowerCase q"
    unfolding ci_contains_def by blast
  then have "toLowerCase text = toLowerCase pre @ toLowerCase q @ toLowerCase post"
    by (simp add: toLowerCase_def)
  then show "includes_str (toLowerCase text) (toLowerCase q)"
    unfolding includes_str_sublist sublist_def by blast
qed

lemma matches_query_text_match: "matches_query (toLowerCase q) conv = text_match q conv"
  unfolding matches_query_def text_match_def
  by (cases "conv_lastMessage conv") (simp_all add: includes_ci)

lemma in_range_range_match: "in_range r conv = range_match (Some r) conv"
  by (auto simp: in_range_def range_match_def)

lemma filterConversations_eq:
  "filterConversations convs q dr =
     sort_key (\<lambda>conv. - conv_updatedAt conv)
       (filter (\<lambda>c. (trim q = [] \<or> text_match q c) \<and> range_match dr c) convs)"
proof -
  have *: "(\<lambda>c. text_match q c \<and> range_match (Some r) c) = (\<lambda>c. (text_match q c) \<and> in_range r c)" for r
    by (simp add: in_range_range_match)
  show ?thesis
    by (cases dr)
       (auto simp: filterConversations_def Let_def range_match_def matches_query_text_match
          in_range_def intro!: arg_cong [where f = "sort_key _"] filter_cong)
qed


text \<open>
  Claim C8, as stated, fails in two ways. Two conversations with the same last-update
  time come out in the order they went in, so the output differs between the two
  orders of the same input; and a query of white space alone is not applied at all, so
  a conversation whose title and preview do not contain it is returned.
\<close>

theorem filter_order_depends_on_input_order:
  "filterConversations [conv_at ''a'' 5, conv_at ''b'' 5] [] None = [conv_at ''a'' 5, conv_at ''b'' 5]
   \<and> filterConversations [conv_at ''b'' 5, conv_at ''a'' 5] [] None = [conv_at ''b'' 5, conv_at ''a'' 5]
   \<and> mset [conv_at ''b'' 5, conv_at ''a'' 5] = mset [conv_at ''a'' 5, conv_at ''b'' 5]
   \<and> conv_at ''a'' 5 \<noteq> conv_at ''b'' 5
   \<and> filterConversations [conv_at ''abc'' 5] '' '' None = [conv_at ''abc'' 5]
   \<and> \<not> includes_str (toLowerCase (conv_title (conv_at ''abc'' 5))) (toLowerCase '' '')
   \<and> conv_lastMessage (conv_at ''abc'' 5) = None"
  by (simp add: filterConversations_def conv_at_def trim_def is_space_def toLowerCase_def
      lower_char_def)

text \<open>
  Claim C8, amended. For every conversation list, query and optional date range the
  filter returns exactly the conversations (with their multiplicities) whose last-update
  time lies in the range, bounds included, and, unless the query is blank (empty after
  trimming), whose title or last-message preview contains the query as a
  case-insensitive substring; the result is sorted by last-update time, latest first,
  conversations with equal times keeping their input order; and the output is the same
  for every permutation of an input list whose last-update times are pairwise different.
\<close>

theorem filter_selects_and_sorts:
  "mset (filterConversations convs q dr)
     = filter_mset (\<lambda>c. (trim q = [] \<or> text_match q c) \<and> range_match dr c) (mset convs)
   \<and> sorted_wrt (\<lambda>a b. conv_updatedAt a \<ge> conv_updatedAt b) (filterConversations convs q dr)
   \<and> (\<forall>k. filter (\<lambda>c. conv_updatedAt c = k) (filterConversations convs q dr)
          = filter (\<lambda>c. conv_updatedAt c = k)
              (filter (\<lambda>c. (trim q = [] \<or> text_match q c) \<and> range_match dr c) convs))
   \<and> (\<forall>convs'. mset convs' = mset convs \<and> inj_on conv_updatedAt (set convs)
          \<longrightarrow> filterConversations convs' q dr = filterConversations convs q dr)"
proof -
  let ?P = "\<lambda>c. (trim q = [] \<or> text_match q c) \<and> range_match dr c"
  let ?k = "\<lambda>conv. - conv_updatedAt conv"
  have 1: "mset (filterConversations convs q dr) = filter_mset ?P (mset convs)"
    by (simp add: filterConversations_eq)
  have "sorted (map ?k (filterConversations convs q dr))"
    by (simp add: filterConversations_eq)
  then have 2: "sorted_wrt (\<lambda>a b. conv_updatedAt a \<ge> conv_updatedAt b) (filterConversations convs q dr)"
    by (simp add: sorted_wrt_map)
  have 3: "filter (\<lambda>c. conv_updatedAt c = k) (filterConversations convs q dr)
          = filter (\<lambda>c. conv_updatedAt c = k) (filter ?P convs)" for k
    using sort_key_stable [of ?k "- k" "filter ?P convs"]
    by (simp add: filterConversations_eq)
  have 4: "filterConversations convs' q dr = filterConversations convs q dr"
    if m: "mset convs' = mset convs" and inj: "inj_on conv_updatedAt (set convs)" for convs'
  proof -
    have "set convs' = set convs" using m by (rule mset_eq_setD)
    with inj have "inj_on ?k (set (filter ?P convs'))"
      by (auto simp: inj_on_def)
    moreover have "mset (filter ?P convs') = mset (sort_key ?k (filter ?P convs))"
      using m by simp
    moreover have "sorted (map ?k (sort_key ?k (filter ?P convs)))"
      by simp
    ultimately have "sort_key ?k (filter ?P convs') = sort_key ?k (filter ?P convs)"
      by (intro sort_key_inj_key_eq)
    then show ?thesis by (simp add: filterConversations_eq)
  qed
  from 1 2 3 4 show ?thesis by blast
qed

theorem filter_selects_and_sorts_witness:
  "mset [conv_at ''Beta'' 9, conv_at ''alpha'' 3, conv_at ''ALPHABET'' 7]
     = mset [conv_at ''alpha'' 3, conv_at ''Beta'' 9, conv_at ''ALPHABET'' 7]
   \<and> inj_on conv_updatedAt (set [conv_at ''alpha'' 3, conv_at ''Beta'' 9, conv_at ''ALPHABET'' 7])
   \<and> filterConversations [conv_at ''Beta'' 9, conv_at ''alpha'' 3, conv_at ''ALPHABET'' 7] ''Alpha'' None
       = filterConversations [conv_at ''alpha'' 3, conv_at ''Beta'' 9, conv_at ''ALPHABET'' 7] ''Alpha'' None
   \<and> filterConversations [conv_at ''alpha'' 3, conv_at ''Beta'' 9, conv_at ''ALPHABET'' 7] ''Alpha'' None
       = [conv_at ''ALPHABET'' 7, conv_at ''alpha'' 3]"
proof -
  have m: "mset [conv_at ''Beta'' 9, conv_at ''alpha'' 3, conv_at ''ALPHABET'' 7]
     = mset [conv_at ''alpha'' 3, conv_at ''Beta'' 9, conv_at ''ALPHABET'' 7]" by simp
  have i: "inj_on conv_updatedAt (set [conv_at ''alpha'' 3, conv_at ''Beta'' 9, conv_at ''ALPHABET'' 7])"
    by (simp add: conv_at_def)
  have e: "filterConversations [conv_at ''alpha'' 3, conv_at ''Beta'' 9, conv_at ''ALPHABET'' 7] ''Alpha'' None
       = [conv_at ''ALPHABET'' 7, conv_at ''alpha'' 3]"
    by code_simp
  from filter_selects_and_sorts [of "[conv_at ''alpha'' 3, conv_at ''Beta'' 9, conv_at ''ALPHABET'' 7]" "''Alpha''" None]
  have "filterConversations [conv_at ''Beta'' 9, conv_at ''alpha'' 3, conv_at ''ALPHABET'' 7] ''Alpha'' None
       = filterConversations [conv_at ''alpha'' 3, conv_at ''Beta'' 9, conv_at ''ALPHABET'' 7] ''Alpha'' None"
    using m i by blast
  with m i e show ?thesis by blast
qed

lemma length_filter_distinct_key:
  "distinct (map f xs) \<Longrightarrow> k \<in> f ` set xs \<Longrightarrow> length (filter (\<lambda>x. f x \<noteq> k) xs) + 1 = length xs"
proof (induction xs)
  case Nil
  then show ?case by simp
next
  case (Cons x xs)
  show ?case
  proof (cases "f x = k")
    case True
    with Cons.prems have "k \<notin> f ` set xs" by auto
    then have "filter (\<lambda>x. f x \<noteq> k) xs = xs" by (auto simp: filter_id_conv)
    with True show ?thesis by simp
  next
    case False
    with Cons show ?thesis by auto
  qed
qed

text \<open>
  Claim C9. A confirmed, successful deletion of a conversation other than the active one
  removes the entries with that id from the sidebar's list and keeps every other entry,
  in order; the chat state (transcript, active conversation id and the rest) and the
  other sidebar state are unchanged. When the ids of the list are distinct and the id
  is listed, exactly one entry goes.
\<close>

theorem delete_inactive_conversation:
  assumes "currentConversationId \<noteq> Some cid"
    and "handleDeleteConversation True (Inr ()) cid currentConversationId (sb, chat) = (sb', chat')"
  shows "chat' = chat
    \<and> conversations sb' = filter (\<lambda>c. conv_id c \<noteq> cid) (conversations sb)
    \<and> searchQuery sb' = searchQuery sb \<and> dateRange sb' = dateRange sb
    \<and> sidebar_error sb' = sidebar_error sb
    \<and> (distinct (map conv_id (conversations sb)) \<and> cid \<in> conv_id ` set (conversations sb)
         \<longrightarrow> length (conversations sb') + 1 = length (conversations sb))"
proof -
  from assms have c: "chat' = chat"
    and sb: "sb' = sb\<lparr>conversations := filter (\<lambda>c. conv_id c \<noteq> cid) (conversations sb)\<rparr>"
    by (auto simp: handleDeleteConversation_def)
  have "length (filter (\<lambda>c. conv_id c \<noteq> cid) (conversations sb)) + 1 = length (conversations sb)"
    if "distinct (map conv_id (conversations sb))" and "cid \<in> conv_id ` set (conversations sb)"
    using that by (rule length_filter_distinct_key)
  with c sb show ?thesis by simp
qed

theorem delete_inactive_conversation_witness:
  "handleDeleteConversation True (Inr ()) ''b'' (Some ''a'')
     (\<lparr>conversations = [conv_at ''a'' 9, conv_at ''b'' 7, conv_at ''c'' 3], searchQuery = [],
       dateRange = None, sidebar_error = None\<rparr>, loaded [question])
   = (\<lparr>conversations = [conv_at ''a'' 9, conv_at ''c'' 3], searchQuery = [],
       dateRange = None, sidebar_error = None\<rparr>, loaded [question])"
proof -
  obtain sb' chat' where r: "handleDeleteConversation True (Inr ()) ''b'' (Some ''a'')
     (\<lparr>conversations = [conv_at ''a'' 9, conv_at ''b'' 7, conv_at ''c'' 3], searchQuery = [],
       dateRange = None, sidebar_error = None\<rparr>, loaded [question]) = (sb', chat')"
    by (cases "handleDeleteConversation True (Inr ()) ''b'' (Some ''a'')
     (\<lparr>conversations = [conv_at ''a'' 9, conv_at ''b'' 7, conv_at ''c'' 3], searchQuery = [],
       dateRange = None, sidebar_error = None\<rparr>, loaded [question])")
  have h: "Some ''a'' \<noteq> Some ''b''" by simp
  from delete_inactive_conversation [OF h r] r show ?thesis
    by (simp add: conv_at_def)
qed

subsection \<open>Grouping\<close>













text \<open>
  The same happens late on a day of 25 hours. At 23:30 in New York on 1 November 2026,
  the instant 24 hours earlier is 00:30 of the same day, so no conversation is dated
  yesterday, and the one updated 25 hours earlier is grouped under This Week.
\<close>

lemma grouping_on_the_day_the_clocks_go_back:
  "new_york_day 1793593800000 = 20758
   \<and> new_york_day (1793593800000 - 24 * 3600000) = 20758
   \<and> (1793593800000 - 18000000) mod 86400000 = (84600000 :: int)
   \<and> conversationGroups new_york_day 1793593800000
       [conv_at ''a'' 1793593800000, conv_at ''b'' (1793593800000 - 25 * 3600000),
        conv_at ''c'' (1793593800000 - 3 * 86400000),
        conv_at ''d'' (1793593800000 - 40 * 86400000)]
     = [(''Today'', [conv_at ''a'' 1793593800000]),
        (''This Week'', [conv_at ''b'' (1793593800000 - 25 * 3600000),
                        conv_at ''c'' (1793593800000 - 3 * 86400000)]),
        (''Older'', [conv_at ''d'' (1793593800000 - 40 * 86400000)])]"
  by (simp add: conversationGroups_def empty_groups_def push_def group_name_def new_york_day_def
      conv_at_def)



section \<open>Well-formed user messages\<close>









lemma split_no_sep: "c \<notin> set xs \<Longrightarrow> split c xs = [xs]"
  by (induction xs) auto



lemma submit_appends:
  "\<exists>ms. messages (snd (submit now (inp, chat))) = messages chat @ ms
        \<and> (ms = [] \<or> ms = [userMessage now (trim (input_message inp)) chat])"
  by (auto simp: submit_def handleSubmit_def handleSendMessage_begin_def split: option.splits)




end
